theory Spec2Isabelle
  imports Main
begin

section \<open>raml2html: the data model\<close>

text \<open>
  The program is \<^verbatim>\<open>src/lib/raml2html.js\<close>. A JavaScript string is modelled as a
  \<^typ>\<open>string\<close>, one \<^typ>\<open>char\<close> for each code unit. An object used as a mapping is an
  association list in the order in which \<^verbatim>\<open>for (key in obj)\<close> visits its keys; a
  property that may be absent (\<^verbatim>\<open>undefined\<close>) is an \<^typ>\<open>'a option\<close>.
\<close>

subsection \<open>JavaScript values that reach the source loader and the command line\<close>

datatype js_value =
    JUndefined
  | JNull
  | JBoolean bool
  | JNumber int
  | JString string
  | JBuffer string
  | JObject nat
  | JFunction nat

text \<open>
  \<open>JObject a\<close> and \<open>JFunction a\<close> are references: \<open>a\<close> is the identity of the object.
  \<open>JBuffer s\<close> is a \<^verbatim>\<open>Buffer\<close> whose content decodes to \<open>s\<close>.
\<close>

fun typeof :: "js_value \<Rightarrow> string" where
  "typeof JUndefined = ''undefined''"
| "typeof JNull = ''object''"
| "typeof (JBoolean b) = ''boolean''"
| "typeof (JNumber n) = ''number''"
| "typeof (JString s) = ''string''"
| "typeof (JBuffer s) = ''object''"
| "typeof (JObject a) = ''object''"
| "typeof (JFunction a) = ''function''"

fun instanceof_Buffer :: "js_value \<Rightarrow> bool" where
  "instanceof_Buffer (JBuffer s) = True"
| "instanceof_Buffer v = False"

fun truthy :: "js_value \<Rightarrow> bool" where
  "truthy JUndefined = False"
| "truthy JNull = False"
| "truthy (JBoolean b) = b"
| "truthy (JNumber n) = (n \<noteq> 0)"
| "truthy (JString s) = (s \<noteq> [])"
| "truthy (JBuffer s) = True"
| "truthy (JObject a) = True"
| "truthy (JFunction a) = True"

subsection \<open>Resource nodes and the root document\<close>

text \<open>
  A resource node as the parser delivers it has \<open>relativeUri\<close>, \<open>uriParameters\<close> and
  \<open>resources\<close>; \<open>parentUrl\<close>, \<open>uniqueId\<close> and \<open>allUriParameters\<close> are the properties that
  \<^verbatim>\<open>traverse\<close> assigns. \<open>'p\<close> is the type of a parameter definition.
\<close>

datatype 'p resource = Resource
  (relativeUri: string)
  (uriParameters: "(string \<times> 'p) list option")
  (resources: "(string \<times> 'p resource) list option")
  (parentUrl: "string option")
  (uniqueId: "string option")
  (allUriParameters: "'p list option")

text \<open>
  The root document. \<open>version\<close> holds the string that \<^verbatim>\<open>String.prototype.replace\<close>
  obtains from \<^verbatim>\<open>ramlObj.version\<close> (a number is held as its decimal text); the root's
  \<^verbatim>\<open>resources\<close> property is the field \<open>top_resources\<close>.
\<close>

record 'p ramlObj =
  baseUri :: "string option"
  version :: "string option"
  top_resources :: "(string \<times> 'p resource) list option"

text \<open>The string that JavaScript makes of a possibly absent string in a concatenation.\<close>

definition to_string :: "string option \<Rightarrow> string" where
  "to_string v = (case v of None \<Rightarrow> ''undefined'' | Some s \<Rightarrow> s)"

section \<open>The base URI: \<^verbatim>\<open>parseBaseUri\<close>\<close>

text \<open>
  \<^verbatim>\<open>str.replace(searchString, replaceValue)\<close> with two strings replaces the first
  occurrence of \<open>searchString\<close>, and expands in \<open>replaceValue\<close> the patterns
  \<^verbatim>\<open>$$\<close>, \<^verbatim>\<open>$&\<close>, \<^verbatim>\<open>$`\<close> and \<^verbatim>\<open>$'\<close> (there are no capture groups, so every other
  \<^verbatim>\<open>$\<close> stands for itself).
\<close>

fun index_of :: "string \<Rightarrow> string \<Rightarrow> nat option" where
  "index_of [] search = (if search = [] then Some 0 else None)"
| "index_of (c # cs) search =
     (if take (length search) (c # cs) = search then Some 0
      else map_option Suc (index_of cs search))"

fun get_substitution :: "string \<Rightarrow> string \<Rightarrow> string \<Rightarrow> string \<Rightarrow> string" where
  "get_substitution matched before after [] = []"
| "get_substitution matched before after [c] = [c]"
| "get_substitution matched before after (c # d # ds) =
     (if c = CHR ''$'' then
        (if d = CHR ''$'' then CHR ''$'' # get_substitution matched before after ds
         else if d = CHR ''&'' then matched @ get_substitution matched before after ds
         else if d = CHR 0x60 then before @ get_substitution matched before after ds
         else if d = CHR 0x27 then after @ get_substitution matched before after ds
         else c # get_substitution matched before after (d # ds))
      else c # get_substitution matched before after (d # ds))"

definition replace_first :: "string \<Rightarrow> string \<Rightarrow> string \<Rightarrow> string" where
  "replace_first str search replaceValue =
     (case index_of str search of
        None \<Rightarrow> str
      | Some pos \<Rightarrow>
          (let before = take pos str;
               after = drop (pos + length search) str
           in before @ get_substitution search before after replaceValue @ after))"

definition parseBaseUri :: "'p ramlObj \<Rightarrow> 'p ramlObj" where
  "parseBaseUri ramlObj =
     (case baseUri ramlObj of
        None \<Rightarrow> ramlObj
      | Some b \<Rightarrow>
          if b \<noteq> [] then
            ramlObj\<lparr>baseUri := Some (replace_first b ''{version}'' (to_string (version ramlObj)))\<rparr>
          else ramlObj)"

section \<open>The annotation pass: \<^verbatim>\<open>makeUniqueId\<close> and \<^verbatim>\<open>traverse\<close>\<close>

text \<open>The class \<^verbatim>\<open>\w\<close> of a regular expression: ASCII letters, digits and the underscore.\<close>

definition is_letter :: "char \<Rightarrow> bool" where
  "is_letter c = (let n = (of_char c :: nat) in (65 \<le> n \<and> n \<le> 90) \<or> (97 \<le> n \<and> n \<le> 122))"

definition is_digit :: "char \<Rightarrow> bool" where
  "is_digit c = (let n = (of_char c :: nat) in 48 \<le> n \<and> n \<le> 57)"

definition is_word_char :: "char \<Rightarrow> bool" where
  "is_word_char c = (is_letter c \<or> is_digit c \<or> c = CHR ''_'')"

text \<open>\<^verbatim>\<open>s.replace(/\W/g, '_')\<close>\<close>

definition replace_nonword :: "string \<Rightarrow> string" where
  "replace_nonword s = map (\<lambda>c. if is_word_char c then c else CHR ''_'') s"

definition makeUniqueId :: "'p resource \<Rightarrow> string" where
  "makeUniqueId resource =
     (let fullUrl = to_string (parentUrl resource) @ relativeUri resource
      in replace_nonword fullUrl)"

text \<open>The values of a node's own \<open>uriParameters\<close>, in iteration order (none when absent).\<close>

definition own_values :: "(string \<times> 'p) list option \<Rightarrow> 'p list" where
  "own_values ups = (case ups of None \<Rightarrow> [] | Some m \<Rightarrow> map snd m)"

text \<open>
  \<open>traverse_resource parentUrl allUriParameters resource\<close> is the body of the loop of
  \<^verbatim>\<open>traverse\<close> for one child \<open>resource\<close>, the recursive call included; an argument that
  the caller does not pass is \<open>None\<close>. The result is the node after the mutations.
\<close>

fun traverse_resource :: "string option \<Rightarrow> 'p list option \<Rightarrow> 'p resource \<Rightarrow> 'p resource" where
  "traverse_resource pUrl inherited (Resource rel ups res pu0 uid0 all0) =
     (let pu = (case pUrl of None \<Rightarrow> [] | Some s \<Rightarrow> if s \<noteq> [] then s else []);
          uid = makeUniqueId (Resource rel ups res (Some pu) uid0 all0);
          ps = (case inherited of None \<Rightarrow> [] | Some xs \<Rightarrow> [] @ xs);
          ps' = ps @ own_values ups
      in Resource rel ups
           (map_option (map (map_prod id (traverse_resource (Some (pu @ rel)) (Some ps')))) res)
           (Some pu) (Some uid) (Some ps'))"

text \<open>The loop of \<^verbatim>\<open>traverse\<close> over a \<open>resources\<close> mapping; an absent mapping has no keys.\<close>

definition traverse_loop ::
  "string option \<Rightarrow> 'p list option \<Rightarrow> (string \<times> 'p resource) list option
     \<Rightarrow> (string \<times> 'p resource) list option" where
  "traverse_loop pUrl inherited res =
     map_option (map (map_prod id (traverse_resource pUrl inherited))) res"

text \<open>\<^verbatim>\<open>traverse(ramlObj)\<close> on the root document, as \<^verbatim>\<open>compileRamlObj\<close> calls it.\<close>

definition traverse :: "'p ramlObj \<Rightarrow> 'p ramlObj" where
  "traverse ramlObj = ramlObj\<lparr>top_resources := traverse_loop None None (top_resources ramlObj)\<rparr>"

subsection \<open>Nodes of a tree\<close>


text \<open>All nodes of a tree, the node itself first, and of a \<open>resources\<close> mapping.\<close>

fun nodes :: "'p resource \<Rightarrow> 'p resource list" where
  "nodes (Resource rel ups res pu uid al) =
     Resource rel ups res pu uid al #
       (case res of None \<Rightarrow> [] | Some cs \<Rightarrow> concat (map (\<lambda>kc. nodes (snd kc)) cs))"

definition forest_nodes :: "(string \<times> 'p resource) list option \<Rightarrow> 'p resource list" where
  "forest_nodes res = (case res of None \<Rightarrow> [] | Some cs \<Rightarrow> concat (map (\<lambda>kc. nodes (snd kc)) cs))"

text \<open>A tree without the three properties that \<^verbatim>\<open>traverse\<close> assigns.\<close>

fun unannotated :: "'p resource \<Rightarrow> 'p resource" where
  "unannotated (Resource rel ups res pu uid al) =
     Resource rel ups (map_option (map (map_prod id unannotated)) res) None None None"

definition unannotated_doc :: "'p ramlObj \<Rightarrow> 'p ramlObj" where
  "unannotated_doc ramlObj =
     ramlObj\<lparr>top_resources := map_option (map (map_prod id unannotated)) (top_resources ramlObj)\<rparr>"

section \<open>The render helpers\<close>

text \<open>
  A helper returns a plain string or a \<^verbatim>\<open>handlebars.SafeString\<close>, which the template
  engine does not escape again. The converters \<^verbatim>\<open>marked\<close> and \<^verbatim>\<open>hljs.highlightAuto\<close> are
  libraries; the helpers take them as the parameters \<open>marked\<close> and \<open>highlightAuto\<close>, functions
  of the text. Each helper is given with its value and with its argument as the call
  leaves it: the helpers assign to no variable of the module, so that the argument is all
  a call can change. The argument \<open>None\<close> is an absent one.
\<close>

datatype helper_result = Str string | SafeString string



text \<open>\<^verbatim>\<open>Array.prototype.indexOf\<close>: the first position of a value, or \<open>-1\<close>.\<close>

fun indexOf :: "'a list \<Rightarrow> 'a \<Rightarrow> int" where
  "indexOf [] v = - 1"
| "indexOf (x # xs) v =
     (if x = v then 0 else (let i = indexOf xs v in if i = - 1 then - 1 else i + 1))"

text \<open>\<^verbatim>\<open>xs.splice(index, 1)\<close> for an index within the array: the array afterwards.\<close>

definition splice1 :: "'a list \<Rightarrow> int \<Rightarrow> 'a list" where
  "splice1 xs index = take (nat index) xs @ drop (nat index + 1) xs"

definition lock_icon :: string where
  "lock_icon = '' <span class=\"glyphicon glyphicon-lock\" title=\"Authentication required\"></span>''"

text \<open>
  \<open>lockIconHelper securedBy\<close> returns the helper's value and the caller's array as the call
  leaves it. An entry \<open>None\<close> of the array is \<^verbatim>\<open>null\<close>.
\<close>

definition lockIconHelper :: "'s option list option \<Rightarrow> helper_result \<times> 's option list option" where
  "lockIconHelper securedBy =
     (case securedBy of
        None \<Rightarrow> (Str [], None)
      | Some xs \<Rightarrow>
          if length xs \<noteq> 0 then
            (let index = indexOf xs None;
                 xs' = (if index \<noteq> - 1 then splice1 xs index else xs)
             in if length xs' \<noteq> 0 then (SafeString lock_icon, Some xs') else (Str [], Some xs'))
          else (Str [], Some xs))"

section \<open>The source loader: \<^verbatim>\<open>sourceToRamlObj\<close>\<close>

datatype error = Error string | ParserError string

text \<open>A call of one of the two callbacks, with its argument.\<close>

datatype call = OnSuccess js_value | OnError error

text \<open>
  The RAML parser and the file system are libraries. \<open>raml_loadFile\<close> and \<open>raml_load\<close>
  return a promise, given here by the state it settles in (or \<open>Pending\<close> when it never
  does).
\<close>

datatype promise = Fulfilled js_value | Rejected error | Pending

record libraries =
  fs_existsSync :: "string \<Rightarrow> bool"
  raml_loadFile :: "string \<Rightarrow> promise"
  raml_load :: "string \<Rightarrow> promise"

text \<open>
  What a call of \<^verbatim>\<open>sourceToRamlObj\<close> does with its callbacks: the calls it makes before
  it returns (\<open>immediately\<close>), and those it leaves to the event loop (\<open>later\<close>), which
  runs them after the code that is running has finished.
\<close>

record schedule =
  immediately :: "call list"
  later :: "call list"

text \<open>\<^verbatim>\<open>promise.then(onSuccess, onError)\<close>: the callback runs in a later turn.\<close>

fun promise_then :: "promise \<Rightarrow> schedule" where
  "promise_then (Fulfilled v) = \<lparr>immediately = [], later = [OnSuccess v]\<rparr>"
| "promise_then (Rejected e) = \<lparr>immediately = [], later = [OnError e]\<rparr>"
| "promise_then Pending = \<lparr>immediately = [], later = []\<rparr>"

text \<open>\<^verbatim>\<open>'' + source\<close> for a string or a buffer.\<close>

fun text_of :: "js_value \<Rightarrow> string" where
  "text_of (JString s) = s"
| "text_of (JBuffer s) = s"
| "text_of v = []"

definition sourceToRamlObj :: "libraries \<Rightarrow> js_value \<Rightarrow> schedule" where
  "sourceToRamlObj lib source =
     (if typeof source = ''string'' then
        (if fs_existsSync lib (text_of source) then promise_then (raml_loadFile lib (text_of source))
         else promise_then (raml_load lib (text_of source)))
      else if instanceof_Buffer source then promise_then (raml_load lib (text_of source))
      else if typeof source = ''object'' then \<lparr>immediately = [], later = [OnSuccess source]\<rparr>
      else \<lparr>immediately =
              [OnError (Error ''sourceToRamlObj: You must supply either file, data or obj as source.'')],
            later = []\<rparr>)"

text \<open>
  The order of events of the script
  \<^verbatim>\<open>sourceToRamlObj(source, onSuccess, onError); after();\<close>
\<close>

datatype event = Fired call | StatementAfter

definition script_trace :: "schedule \<Rightarrow> event list" where
  "script_trace s = map Fired (immediately s) @ [StatementAfter] @ map Fired (later s)"

section \<open>The command line\<close>

text \<open>
  \<open>program\<close> is what \<^verbatim>\<open>commander\<close> has parsed from \<^verbatim>\<open>process.argv\<close>: the value of
  \<^verbatim>\<open>-i\<close> and of \<^verbatim>\<open>-o\<close> (\<open>JUndefined\<close> when the flag is not given, \<open>JBoolean True\<close> when it
  has no value; \<open>output_file\<close> is \<^verbatim>\<open>program.output\<close>) and the positional arguments.
\<close>

record program =
  input :: js_value
  output_file :: js_value
  args :: "string list"

text \<open>
  Three libraries take part. \<^verbatim>\<open>program.help()\<close> prints the usage, and either returns or
  ends the process itself with a status of its own. \<^verbatim>\<open>fs.writeFileSync(path, data)\<close>
  returns (\<open>None\<close>) or throws (\<open>Some e\<close>, with the text \<open>e\<close> of the exception). An exception
  that the success callback throws goes back into the template engine, which has called
  it through the callback of \<^verbatim>\<open>compileRamlObj\<close>: the engine either catches it and calls
  that callback with it, whose first line then calls the error callback
  (\<open>ReportedToCallback\<close>), or lets it pass, and the process ends on an uncaught exception
  with status 1 (\<open>Uncaught\<close>).
\<close>

datatype help_behaviour = HelpReturns | HelpExits nat

datatype thrown_handling = ReportedToCallback | Uncaught

record cli_libraries =
  program_help :: help_behaviour
  fs_writeFileSync :: "js_value \<Rightarrow> string \<Rightarrow> string option"
  thrown_in_callback :: thrown_handling

text \<open>What \<^verbatim>\<open>parse\<close> does with the callbacks that the entry point passes.\<close>

datatype parse_outcome = Result string | Failure string | NoCallback

datatype effect =
    ConsoleError string
  | Help
  | Exit nat
  | Parse js_value
  | WriteFile js_value string
  | StdoutWrite string
  | ConsoleLog string
  | UncaughtException string

text \<open>The error callback of the entry point.\<close>

definition on_error :: "string \<Rightarrow> effect list" where
  "on_error e = [ConsoleLog (''Error parsing: '' @ e), Exit 1]"

text \<open>The success callback of the entry point: its effects, and the exception it throws.\<close>

definition on_result :: "cli_libraries \<Rightarrow> program \<Rightarrow> string \<Rightarrow> effect list \<times> string option" where
  "on_result lib p result =
     (if truthy (output_file p) then
        (case fs_writeFileSync lib (output_file p) result of
           None \<Rightarrow> ([WriteFile (output_file p) result], None)
         | Some e \<Rightarrow> ([], Some e))
      else ([StdoutWrite result, Exit 0], None))"

definition start_parsing ::
  "cli_libraries \<Rightarrow> parse_outcome \<Rightarrow> program \<Rightarrow> js_value \<Rightarrow> effect list" where
  "start_parsing lib outcome p inp =
     Parse inp #
       (case outcome of
          Result result \<Rightarrow>
            (case on_result lib p result of
               (effects, None) \<Rightarrow> effects
             | (effects, Some e) \<Rightarrow>
                 effects @
                   (case thrown_in_callback lib of
                      ReportedToCallback \<Rightarrow> on_error e
                    | Uncaught \<Rightarrow> [UncaughtException e, Exit 1]))
        | Failure e \<Rightarrow> on_error e
        | NoCallback \<Rightarrow> [])"

text \<open>
  The entry point (the block under \<^verbatim>\<open>require.main === module\<close>): the effects of the
  process in order, up to its exit. \<open>outcome\<close> is the outcome of the one call of
  \<^verbatim>\<open>parse\<close>.
\<close>

definition main :: "cli_libraries \<Rightarrow> parse_outcome \<Rightarrow> program \<Rightarrow> effect list" where
  "main lib outcome p =
     (if \<not> truthy (input p) then
        (if length (args p) \<noteq> 1 then
           [ConsoleError ''Error: You need to specify the RAML input file'', Help] @
             (case program_help lib of HelpExits status \<Rightarrow> [Exit status] | HelpReturns \<Rightarrow> [Exit 1])
         else start_parsing lib outcome p (JString (args p ! 0)))
      else start_parsing lib outcome p (input p))"

section \<open>Auxiliary definitions and example inputs\<close>

text \<open>The value of \<^verbatim>\<open>parentUrl || ''\<close> and of an inherited list that may be absent.\<close>

definition url_or_empty :: "string option \<Rightarrow> string" where
  "url_or_empty pUrl = (case pUrl of None \<Rightarrow> [] | Some s \<Rightarrow> s)"

definition list_or_empty :: "'a list option \<Rightarrow> 'a list" where
  "list_or_empty xs = (case xs of None \<Rightarrow> [] | Some ys \<Rightarrow> ys)"

text \<open>
  A document with the resource \<^verbatim>\<open>/users/{id}\<close> (parameter \<open>1\<close>) and below it
  \<^verbatim>\<open>/posts/{postId}\<close> (parameter \<open>2\<close>) and \<^verbatim>\<open>/friends/{friendId}\<close> (parameter \<open>3\<close>), before
  annotation; the three nodes as annotation leaves them; and a document without
  \<^verbatim>\<open>resources\<close>.
\<close>

definition users_doc :: "nat ramlObj" where
  "users_doc =
     \<lparr>baseUri = Some ''http://api.example.com/{version}'', version = Some ''v1'',
      top_resources = Some [(''0'',
        Resource ''/users/{id}'' (Some [(''id'', 1)])
          (Some [(''0'', Resource ''/posts/{postId}'' (Some [(''postId'', 2)]) None None None None),
                 (''1'', Resource ''/friends/{friendId}'' (Some [(''friendId'', 3)]) None None None None)])
          None None None)]\<rparr>"

definition posts_node :: "nat resource" where
  "posts_node = Resource ''/posts/{postId}'' (Some [(''postId'', 2)]) None
       (Some ''/users/{id}'') (Some ''_users__id__posts__postId_'') (Some [1, 2])"

definition friends_node :: "nat resource" where
  "friends_node = Resource ''/friends/{friendId}'' (Some [(''friendId'', 3)]) None
       (Some ''/users/{id}'') (Some ''_users__id__friends__friendId_'') (Some [1, 3])"

definition users_node :: "nat resource" where
  "users_node = Resource ''/users/{id}'' (Some [(''id'', 1)])
       (Some [(''0'', posts_node), (''1'', friends_node)])
       (Some []) (Some ''_users__id_'') (Some [1])"

definition empty_doc :: "nat ramlObj" where
  "empty_doc = \<lparr>baseUri = None, version = None, top_resources = None\<rparr>"

text \<open>
  The libraries as they are: \<^verbatim>\<open>program.help()\<close> of \<^verbatim>\<open>commander\<close> prints the usage and calls
  \<^verbatim>\<open>process.exit()\<close>, which ends the process with status 0; \<^verbatim>\<open>fs.writeFileSync\<close> throws a
  \<^verbatim>\<open>TypeError\<close> for a path that is neither a string nor a buffer, and is taken to write a
  file that is named; the template engine reports an exception of its callback to that
  callback.
\<close>

definition node_libraries :: cli_libraries where
  "node_libraries =
     \<lparr>program_help = HelpExits 0,
      fs_writeFileSync = (\<lambda>path data.
        case path of
          JString s \<Rightarrow> None
        | JBuffer s \<Rightarrow> None
        | _ \<Rightarrow> Some ''TypeError: path must be a string or Buffer''),
      thrown_in_callback = ReportedToCallback\<rparr>"

section \<open>Properties of the annotation pass\<close>

subsection \<open>What one step of the traversal assigns\<close>

lemma traverse_resource_eq:
  "traverse_resource pUrl inherited r =
     Resource (relativeUri r) (uriParameters r)
       (traverse_loop (Some (url_or_empty pUrl @ relativeUri r))
          (Some (list_or_empty inherited @ own_values (uriParameters r))) (resources r))
       (Some (url_or_empty pUrl))
       (Some (replace_nonword (url_or_empty pUrl @ relativeUri r)))
       (Some (list_or_empty inherited @ own_values (uriParameters r)))"
  by (cases r)
    (simp add: traverse_loop_def url_or_empty_def list_or_empty_def makeUniqueId_def
      to_string_def Let_def split: option.splits)

lemma traverse_resource_sel [simp]:
  "relativeUri (traverse_resource pUrl inherited r) = relativeUri r"
  "uriParameters (traverse_resource pUrl inherited r) = uriParameters r"
  "resources (traverse_resource pUrl inherited r) =
     traverse_loop (Some (url_or_empty pUrl @ relativeUri r))
       (Some (list_or_empty inherited @ own_values (uriParameters r))) (resources r)"
  "parentUrl (traverse_resource pUrl inherited r) = Some (url_or_empty pUrl)"
  "uniqueId (traverse_resource pUrl inherited r) =
     Some (replace_nonword (url_or_empty pUrl @ relativeUri r))"
  "allUriParameters (traverse_resource pUrl inherited r) =
     Some (list_or_empty inherited @ own_values (uriParameters r))"
  by (simp_all add: traverse_resource_eq)

lemma nodes_eq: "nodes r = r # forest_nodes (resources r)"
  by (cases r) (simp add: forest_nodes_def)

declare traverse_resource.simps [simp del] nodes.simps [simp del]

lemma traverse_loop_simps [simp]:
  "traverse_loop pUrl inherited None = None"
  "traverse_loop pUrl inherited (Some cs) = Some (map (map_prod id (traverse_resource pUrl inherited)) cs)"
  by (simp_all add: traverse_loop_def)

lemma forest_nodes_simps [simp]:
  "forest_nodes None = []"
  "forest_nodes (Some cs) = concat (map (\<lambda>kc. nodes (snd kc)) cs)"
  by (simp_all add: forest_nodes_def)

lemma replace_nonword_word: "c \<in> set (replace_nonword s) \<Longrightarrow> is_word_char c"
  by (auto simp: replace_nonword_def is_word_char_def)

subsection \<open>Unique identifiers\<close>

lemma nodes_traverse_resource:
  "n \<in> set (nodes (traverse_resource pUrl inherited r)) \<Longrightarrow>
     \<exists>pu. parentUrl n = Some pu \<and> uniqueId n = Some (replace_nonword (pu @ relativeUri n))"
proof (induction r arbitrary: pUrl inherited n)
  case (Resource rel ups res pu0 uid0 all0)
  let ?r = "Resource rel ups res pu0 uid0 all0"
  from Resource.prems have "n = traverse_resource pUrl inherited ?r \<or>
      n \<in> set (forest_nodes (resources (traverse_resource pUrl inherited ?r)))"
    by (simp add: nodes_eq [of "traverse_resource pUrl inherited ?r"])
  then show ?case
  proof
    assume "n = traverse_resource pUrl inherited ?r"
    then show ?thesis by simp
  next
    assume "n \<in> set (forest_nodes (resources (traverse_resource pUrl inherited ?r)))"
    then obtain cs kc where res: "res = Some cs" and kc: "kc \<in> set cs"
      and n: "n \<in> set (nodes (traverse_resource (Some (url_or_empty pUrl @ rel))
                (Some (list_or_empty inherited @ own_values ups)) (snd kc)))"
      by (cases res) auto
    have snd: "snd kc \<in> Basic_BNFs.snds kc" by (cases kc) simp
    from res have "cs \<in> set_option res" by simp
    from Resource.IH [OF this kc snd n] show ?thesis .
  qed
qed

lemma forest_nodes_traverse:
  assumes "n \<in> set (forest_nodes (traverse_loop pUrl inherited res))"
  shows "\<exists>pu. parentUrl n = Some pu \<and> uniqueId n = Some (replace_nonword (pu @ relativeUri n))"
proof -
  from assms obtain cs kc where "res = Some cs" "kc \<in> set cs"
    "n \<in> set (nodes (traverse_resource pUrl inherited (snd kc)))"
    by (cases res) auto
  then show ?thesis by (rule_tac nodes_traverse_resource)
qed

text \<open>
  Claim C2. For every node \<open>n\<close> of the tree that \<^verbatim>\<open>traverse\<close> has annotated, \<open>uniqueId\<close> is
  the concatenation of the node's \<open>parentUrl\<close> and \<open>relativeUri\<close> in which every character
  that is not a letter, a digit or an underscore is replaced by an underscore; hence
  \<open>uniqueId\<close> holds only letters, digits and underscores. Letters and digits are those of
  the class \<^verbatim>\<open>\w\<close>, the ASCII ones.
\<close>

theorem uniqueId_word_characters:
  assumes "n \<in> set (forest_nodes (top_resources (traverse ramlObj)))"
  shows "\<exists>pu u. parentUrl n = Some pu \<and> uniqueId n = Some u \<and>
           u = map (\<lambda>c. if is_letter c \<or> is_digit c \<or> c = CHR ''_'' then c else CHR ''_'')
                 (pu @ relativeUri n) \<and>
           (\<forall>c \<in> set u. is_letter c \<or> is_digit c \<or> c = CHR ''_'')"
proof -
  from assms have "n \<in> set (forest_nodes (traverse_loop None None (top_resources ramlObj)))"
    by (simp add: traverse_def)
  from forest_nodes_traverse [OF this] obtain pu where pu: "parentUrl n = Some pu"
    and u: "uniqueId n = Some (replace_nonword (pu @ relativeUri n))"
    by blast
  have all: "\<forall>c \<in> set (replace_nonword (pu @ relativeUri n)). is_letter c \<or> is_digit c \<or> c = CHR ''_''"
  proof
    fix c assume "c \<in> set (replace_nonword (pu @ relativeUri n))"
    from replace_nonword_word [OF this] show "is_letter c \<or> is_digit c \<or> c = CHR ''_''"
      by (simp add: is_word_char_def)
  qed
  have eq: "replace_nonword (pu @ relativeUri n) =
      map (\<lambda>c. if is_letter c \<or> is_digit c \<or> c = CHR ''_'' then c else CHR ''_'') (pu @ relativeUri n)"
    by (simp add: replace_nonword_def is_word_char_def)
  show ?thesis
  proof (intro exI conjI)
    show "parentUrl n = Some pu" by (rule pu)
    show "uniqueId n = Some (replace_nonword (pu @ relativeUri n))" by (rule u)
    show "replace_nonword (pu @ relativeUri n) =
      map (\<lambda>c. if is_letter c \<or> is_digit c \<or> c = CHR ''_'' then c else CHR ''_'') (pu @ relativeUri n)"
      by (rule eq)
    show "\<forall>c \<in> set (replace_nonword (pu @ relativeUri n)). is_letter c \<or> is_digit c \<or> c = CHR ''_''"
      by (rule all)
  qed
qed

text \<open>The node \<^verbatim>\<open>/posts/{postId}\<close> of the example document, with \<open>uniqueId\<close>
  \<^verbatim>\<open>_users__id__posts__postId_\<close>.\<close>

theorem uniqueId_word_characters_witness:
  "posts_node \<in> set (forest_nodes (top_resources (traverse users_doc))) \<and>
   (\<exists>pu u. parentUrl posts_node = Some pu \<and> uniqueId posts_node = Some u \<and>
           u = map (\<lambda>c. if is_letter c \<or> is_digit c \<or> c = CHR ''_'' then c else CHR ''_'')
                 (pu @ relativeUri posts_node) \<and>
           (\<forall>c \<in> set u. is_letter c \<or> is_digit c \<or> c = CHR ''_''))"
proof -
  have h: "posts_node \<in> set (forest_nodes (top_resources (traverse users_doc)))"
    by code_simp
  from uniqueId_word_characters [OF h] h show ?thesis by (rule_tac conjI)
qed

subsection \<open>Inherited URI parameters\<close>







subsection \<open>The tree is the one that was given\<close>

lemma unannotated_traverse_resource:
  "unannotated (traverse_resource pUrl inherited r) = unannotated r"
proof (induction r arbitrary: pUrl inherited)
  case (Resource rel ups res pu0 uid0 all0)
  have "map_option (map (map_prod id unannotated))
          (traverse_loop (Some (url_or_empty pUrl @ rel)) (Some (list_or_empty inherited @ own_values ups)) res) =
        map_option (map (map_prod id unannotated)) res"
  proof (cases res)
    case None
    then show ?thesis by simp
  next
    case (Some cs)
    let ?g = "traverse_resource (Some (url_or_empty pUrl @ rel))
               (Some (list_or_empty inherited @ own_values ups))"
    have "map (\<lambda>kc. map_prod id unannotated (map_prod id ?g kc)) cs =
          map (map_prod id unannotated) cs"
    proof (rule map_cong [OF refl])
      fix kc assume kc: "kc \<in> set cs"
      have "snd kc \<in> Basic_BNFs.snds kc" by (cases kc) simp
      with Resource.IH Some kc have "unannotated (?g (snd kc)) = unannotated (snd kc)"
        by simp
      then show "map_prod id unannotated (map_prod id ?g kc) = map_prod id unannotated kc"
        by (cases kc) simp
    qed
    then have "map (map_prod id unannotated) (map (map_prod id ?g) cs) =
          map (map_prod id unannotated) cs"
      by (simp only: map_map comp_def)
    with Some show ?thesis by simp
  qed
  then show ?case
    by (simp add: traverse_resource_eq [of pUrl inherited "Resource rel ups res pu0 uid0 all0"])
qed

lemma unannotated_traverse_list:
  "map (map_prod id unannotated) (map (map_prod id (traverse_resource pUrl inherited)) cs) =
   map (map_prod id unannotated) cs"
  by (induction cs) (auto simp: unannotated_traverse_resource)

lemma unannotated_traverse_loop:
  "map_option (map (map_prod id unannotated)) (traverse_loop pUrl inherited res) =
   map_option (map (map_prod id unannotated)) res"
  by (cases res) (simp_all only: traverse_loop_simps option.map unannotated_traverse_list)

text \<open>
  Claim C8. \<^verbatim>\<open>traverse\<close> returns the tree it was given, mutated: but for the three
  properties it assigns to the nodes, the returned document is the given one (the same
  \<open>baseUri\<close> and \<open>version\<close>, the same keys, \<open>relativeUri\<close> and \<open>uriParameters\<close> at every
  node). When the root has no \<open>resources\<close> the document is unchanged. Every direct child
  of the root gets the empty string as \<open>parentUrl\<close>.
\<close>

theorem traverse_same_tree:
  "unannotated_doc (traverse ramlObj) = unannotated_doc ramlObj
   \<and> (top_resources ramlObj = None \<longrightarrow> traverse ramlObj = ramlObj)
   \<and> (\<forall>kc \<in> set (case top_resources (traverse ramlObj) of None \<Rightarrow> [] | Some cs \<Rightarrow> cs).
         parentUrl (snd kc) = Some [])"
proof (intro conjI)
  show "unannotated_doc (traverse ramlObj) = unannotated_doc ramlObj"
    by (simp add: unannotated_doc_def traverse_def unannotated_traverse_loop)
  show "top_resources ramlObj = None \<longrightarrow> traverse ramlObj = ramlObj"
    by (simp add: traverse_def)
  show "\<forall>kc \<in> set (case top_resources (traverse ramlObj) of None \<Rightarrow> [] | Some cs \<Rightarrow> cs).
         parentUrl (snd kc) = Some []"
    by (cases "top_resources ramlObj") (auto simp: traverse_def url_or_empty_def)
qed

text \<open>A document without \<open>resources\<close>, and the child \<^verbatim>\<open>/users/{id}\<close> of the example's root.\<close>

theorem traverse_same_tree_witness:
  "top_resources empty_doc = None \<and> traverse empty_doc = empty_doc \<and>
   (''0'', users_node) \<in> set (case top_resources (traverse users_doc) of None \<Rightarrow> [] | Some cs \<Rightarrow> cs) \<and>
   parentUrl (snd (''0'', users_node)) = Some []"
proof -
  have a: "top_resources empty_doc = None" by (simp add: empty_doc_def)
  have b: "(''0'', users_node) \<in> set (case top_resources (traverse users_doc) of None \<Rightarrow> [] | Some cs \<Rightarrow> cs)"
    by code_simp
  from traverse_same_tree [of empty_doc] a have c: "traverse empty_doc = empty_doc" by blast
  from traverse_same_tree [of users_doc] b have d: "parentUrl (snd (''0'', users_node)) = Some []"
    by blast
  from a b c d show ?thesis by (intro conjI)
qed

section \<open>Properties of the base URI resolver\<close>

text \<open>The example of the specification: version \<^verbatim>\<open>v1\<close>.\<close>

lemma parseBaseUri_example:
  "baseUri (parseBaseUri \<lparr>baseUri = Some ''http://api.example.com/{version}'',
      version = Some ''v1'', top_resources = None\<rparr>) =
   Some ''http://api.example.com/v1''"
  by (simp add: parseBaseUri_def replace_first_def to_string_def)

lemma parseBaseUri_absent_or_empty:
  "baseUri ramlObj = None \<or> baseUri ramlObj = Some [] \<Longrightarrow> parseBaseUri ramlObj = ramlObj"
  by (auto simp: parseBaseUri_def)

text \<open>A replacement without \<^verbatim>\<open>$\<close> is inserted as it is, at the first occurrence.\<close>

lemma get_substitution_plain:
  "CHR ''$'' \<notin> set r \<Longrightarrow> get_substitution m b a r = r"
  by (induction m b a r rule: get_substitution.induct) auto

lemma index_of_decomp:
  "index_of s t = Some pos \<Longrightarrow> s = take pos s @ t @ drop (pos + length t) s"
proof (induction s arbitrary: pos)
  case Nil
  then show ?case by (simp split: if_splits)
next
  case (Cons c cs)
  show ?case
  proof (cases "take (length t) (c # cs) = t")
    case True
    with Cons.prems have "pos = 0" by simp
    moreover from True have "c # cs = t @ drop (length t) (c # cs)"
      by (metis append_take_drop_id)
    ultimately show ?thesis by simp
  next
    case False
    with Cons.prems obtain q where q: "index_of cs t = Some q" and pos: "pos = Suc q"
      by auto
    from Cons.IH [OF q] pos show ?thesis by simp
  qed
qed

lemma index_of_first:
  "index_of s t = Some pos \<Longrightarrow> q < pos \<Longrightarrow> take (length t) (drop q s) \<noteq> t"
proof (induction s arbitrary: pos q)
  case Nil
  then show ?case by (simp split: if_splits)
next
  case (Cons c cs)
  show ?case
  proof (cases "take (length t) (c # cs) = t")
    case True
    with Cons.prems show ?thesis by simp
  next
    case False
    with Cons.prems obtain p where p: "index_of cs t = Some p" and pos: "pos = Suc p"
      by auto
    show ?thesis
    proof (cases q)
      case 0
      with False show ?thesis by simp
    next
      case (Suc q')
      with Cons.prems pos have "q' < p" by simp
      from Cons.IH [OF p this] Suc show ?thesis by simp
    qed
  qed
qed

lemma index_of_None:
  "index_of s t = None \<Longrightarrow> take (length t) (drop q s) \<noteq> t"
proof (induction s arbitrary: q)
  case Nil
  then show ?case by (auto split: if_splits)
next
  case (Cons c cs)
  then show ?case by (cases q) (auto split: if_splits)
qed

lemma parseBaseUri_plain_version:
  assumes "baseUri ramlObj = Some b" and "b \<noteq> []"
    and "CHR ''$'' \<notin> set (to_string (version ramlObj))"
  shows "baseUri (parseBaseUri ramlObj) =
     (case index_of b ''{version}'' of
        None \<Rightarrow> Some b
      | Some pos \<Rightarrow> Some (take pos b @ to_string (version ramlObj) @ drop (pos + length ''{version}'') b))"
  using assms
  by (simp add: parseBaseUri_def replace_first_def get_substitution_plain Let_def split: option.splits)

text \<open>
  Claim C5 says that \<^verbatim>\<open>{version}\<close> is replaced by the string value of the version, for
  every document. The code passes the version to \<^verbatim>\<open>replace\<close> as the replacement string,
  where \<^verbatim>\<open>$&\<close> stands for the matched text: with the version \<^verbatim>\<open>$&\<close> the base URI
  \<^verbatim>\<open>http://api.example.com/{version}\<close> comes back as it was, and not as
  \<^verbatim>\<open>http://api.example.com/$&\<close>.
\<close>

theorem parseBaseUri_dollar_pattern:
  "baseUri (parseBaseUri \<lparr>baseUri = Some ''http://api.example.com/{version}'',
      version = Some [CHR ''$'', CHR ''&''], top_resources = None\<rparr>) =
   Some ''http://api.example.com/{version}''"
  by (simp add: parseBaseUri_def replace_first_def to_string_def)

section \<open>Properties of the lock-icon helper\<close>

lemma indexOf_ge: "- 1 \<le> indexOf xs v"
  by (induction xs) (auto simp: Let_def)

lemma indexOf_absent: "indexOf xs v = - 1 \<longleftrightarrow> v \<notin> set xs"
proof (induction xs)
  case Nil
  then show ?case by simp
next
  case (Cons x xs)
  show ?case
  proof (cases "x = v")
    case True
    then show ?thesis by simp
  next
    case False
    with Cons indexOf_ge [of xs v] show ?thesis by (auto simp: Let_def)
  qed
qed

lemma splice1_indexOf: "v \<in> set xs \<Longrightarrow> splice1 xs (indexOf xs v) = remove1 v xs"
proof (induction xs)
  case Nil
  then show ?case by simp
next
  case (Cons x xs)
  show ?case
  proof (cases "x = v")
    case True
    then show ?thesis by (simp add: splice1_def)
  next
    case False
    with Cons.prems have v: "v \<in> set xs" by simp
    then have "indexOf xs v \<noteq> - 1" by (simp add: indexOf_absent)
    with indexOf_ge [of xs v] have ge: "0 \<le> indexOf xs v" by linarith
    then have "nat (indexOf xs v + 1) = Suc (nat (indexOf xs v))" by linarith
    with False Cons.IH [OF v] \<open>indexOf xs v \<noteq> - 1\<close> show ?thesis
      by (simp add: splice1_def Let_def)
  qed
qed


lemma lockIconHelper_value:
  "fst (lockIconHelper (Some xs)) = (if remove1 None xs \<noteq> [] then SafeString lock_icon else Str [])"
proof (cases "None \<in> set xs")
  case True
  then have "xs \<noteq> []" by auto
  with True show ?thesis
    by (simp add: lockIconHelper_def Let_def indexOf_absent splice1_indexOf)
next
  case False
  then show ?thesis
    by (simp add: lockIconHelper_def Let_def indexOf_absent remove1_idem)
qed




text \<open>
  Claim C6 says that the helper returns the marker exactly when a scheme that is not
  \<^verbatim>\<open>null\<close> remains once a single \<^verbatim>\<open>null\<close> is removed. On \<^verbatim>\<open>[null, null]\<close> no such
  scheme remains, and the code returns the marker: it removes one \<^verbatim>\<open>null\<close> and finds
  the list, which still holds the other, not empty.
\<close>

theorem lockIconHelper_two_nulls:
  "lockIconHelper (Some [None, None :: string option]) = (SafeString lock_icon, Some [None])
   \<and> lock_icon \<noteq> []"
  by (simp add: lockIconHelper_def splice1_def lock_icon_def)

text \<open>The examples of claim C6 hold: \<^verbatim>\<open>[null]\<close>, \<^verbatim>\<open>[null, "oauth2"]\<close>, \<^verbatim>\<open>[]\<close>, no list.\<close>

lemma lockIconHelper_examples:
  "fst (lockIconHelper (Some [None :: string option])) = Str []"
  "fst (lockIconHelper (Some [None, Some ''oauth2''])) = SafeString lock_icon"
  "fst (lockIconHelper (Some ([] :: string option list))) = Str []"
  "fst (lockIconHelper (None :: string option list option)) = Str []"
  by (simp_all add: lockIconHelper_def splice1_def)

text \<open>With at most one \<^verbatim>\<open>null\<close> in the list, the marker is returned exactly when the list
  holds a scheme that is not \<^verbatim>\<open>null\<close>.\<close>

lemma lockIconHelper_one_null:
  assumes "count_list xs None \<le> 1"
  shows "fst (lockIconHelper (Some xs)) = SafeString lock_icon \<longleftrightarrow> (\<exists>s. Some s \<in> set xs)"
proof -
  have "remove1 None xs \<noteq> [] \<longleftrightarrow> (\<exists>s. Some s \<in> set xs)"
    using assms
  proof (induction xs)
    case Nil
    then show ?case by simp
  next
    case (Cons x xs)
    show ?case
    proof (cases x)
      case None
      with Cons.prems have "count_list xs None = 0" by simp
      then have "None \<notin> set xs" by (simp add: count_list_0_iff)
      then have "xs \<noteq> [] \<longleftrightarrow> (\<exists>s. Some s \<in> set xs)"
        by (cases xs) (auto, metis not_None_eq)
      with None show ?thesis by simp
    next
      case (Some s)
      then show ?thesis by auto
    qed
  qed
  then show ?thesis by (simp add: lockIconHelper_value)
qed

section \<open>Properties of the source loader\<close>

text \<open>
  Claim C7. For every object \<open>JObject a\<close> passed as the source, the loader calls the
  success callback, once, with that same object (the reference \<open>a\<close>), and not before it
  returns: a statement that follows the call of the loader runs before the callback.
\<close>

theorem sourceToRamlObj_object:
  "sourceToRamlObj lib (JObject a) = \<lparr>immediately = [], later = [OnSuccess (JObject a)]\<rparr>
   \<and> script_trace (sourceToRamlObj lib (JObject a)) =
       [StatementAfter, Fired (OnSuccess (JObject a))]"
  by (simp add: sourceToRamlObj_def script_trace_def)

text \<open>
  Claim C10. \<^verbatim>\<open>typeof null\<close> is \<^verbatim>\<open>'object'\<close>, so \<^verbatim>\<open>null\<close> as the source takes the branch of
  an object that is already parsed: the error callback is not called, and the success
  callback is called with \<^verbatim>\<open>null\<close>, after the loader has returned.
\<close>

theorem sourceToRamlObj_null:
  "typeof JNull = ''object''
   \<and> sourceToRamlObj lib JNull = \<lparr>immediately = [], later = [OnSuccess JNull]\<rparr>
   \<and> script_trace (sourceToRamlObj lib JNull) = [StatementAfter, Fired (OnSuccess JNull)]"
  by (simp add: sourceToRamlObj_def script_trace_def)

text \<open>
  Claim C4 says that the callback is called asynchronously in every branch. In the last
  branch it is not: for a source that is neither a string, nor a buffer, nor an object,
  such as the number \<open>42\<close>, the code calls the error callback before it returns, so the
  callback runs before the statement that follows the call of the loader. The branch for
  an object defers its callback with \<^verbatim>\<open>process.nextTick\<close>.
\<close>

theorem sourceToRamlObj_number_synchronous:
  "sourceToRamlObj lib (JNumber 42) =
     \<lparr>immediately =
        [OnError (Error ''sourceToRamlObj: You must supply either file, data or obj as source.'')],
      later = []\<rparr>
   \<and> script_trace (sourceToRamlObj lib (JNumber 42)) =
     [Fired (OnError (Error ''sourceToRamlObj: You must supply either file, data or obj as source.'')),
      StatementAfter]"
  by (simp add: sourceToRamlObj_def script_trace_def)

text \<open>In every branch at most one callback is called, and at most once.\<close>

lemma sourceToRamlObj_at_most_one:
  "length (immediately (sourceToRamlObj lib source) @ later (sourceToRamlObj lib source)) \<le> 1"
proof -
  have "length (immediately (promise_then q) @ later (promise_then q)) \<le> 1" for q
    by (cases q) simp_all
  then show ?thesis by (simp add: sourceToRamlObj_def)
qed

section \<open>Properties of the command line\<close>




text \<open>
  The status of the exit after the usage is the library's. With a \<^verbatim>\<open>program.help()\<close> that
  ends the process, the \<^verbatim>\<open>process.exit(1)\<close> that follows it in the source is not reached,
  and a call with no input at all exits with status 0.
\<close>

lemma main_no_input_status:
  "main node_libraries outcome \<lparr>input = JUndefined, output_file = JUndefined, args = []\<rparr> =
     [ConsoleError ''Error: You need to specify the RAML input file'', Help, Exit 0]"
  by (simp add: main_def node_libraries_def)

text \<open>
  With \<^verbatim>\<open>-o\<close> without a value, \<^verbatim>\<open>program.output\<close> is \<^verbatim>\<open>true\<close>: writing the result throws,
  and the run ends in the error callback.
\<close>

lemma main_output_without_value:
  "main node_libraries (Result ''<html>'')
     \<lparr>input = JString ''a.raml'', output_file = JBoolean True, args = []\<rparr> =
   [Parse (JString ''a.raml''),
    ConsoleLog ''Error parsing: TypeError: path must be a string or Buffer'', Exit 1]"
  by (simp add: main_def start_parsing_def on_result_def on_error_def node_libraries_def)

lemma main_output_file:
  "main node_libraries (Result ''<html>'')
     \<lparr>input = JString ''a.raml'', output_file = JString ''a.html'', args = []\<rparr> =
   [Parse (JString ''a.raml''), WriteFile (JString ''a.html'') ''<html>'']"
  by (simp add: main_def start_parsing_def on_result_def node_libraries_def)

end
